theory Spec2Isabelle
  imports Main
begin

section \<open>The syntax tree and the documentation structure\<close>

text \<open>
  The visitor of \<^verbatim>\<open>pydoclint/visitor.py\<close> walks a parsed Python module. Of a node it
  reads the name, the line number, the positional parameters (\<^verbatim>\<open>node.args.args\<close>) and
  its child nodes. Only class and function definitions have a visiting method with an
  effect, and a definition can only stand among the statements of a body, so the child
  nodes that \<^verbatim>\<open>generic_visit\<close> walks through are kept as one list per node, in
  the order of the walk.
\<close>

record astArg =
  arg :: string
  annotation :: "string option"

datatype node =
    ClassDef (name: string) (lineno: int) (body: "node list")
  | FunctionDef (name: string) (lineno: int) (args: "astArg list") (body: "node list")
  | AsyncFunctionDef (name: string) (lineno: int) (args: "astArg list") (body: "node list")
  | Raise (body: "node list")
  | Other (body: "node list")

text \<open>\<^verbatim>\<open>isinstance(parent_, ast.ClassDef)\<close>, for a parent that may be \<^verbatim>\<open>None\<close>.\<close>

fun isClassDef :: "node option \<Rightarrow> bool" where
  "isClassDef (Some (ClassDef n l b)) = True"
| "isClassDef p = False"

text \<open>An entry of a section of a numpydoc docstring: \<^verbatim>\<open>Parameter(name, type, desc)\<close>.\<close>

record Parameter =
  pname :: string
  ptype :: string
  pdesc :: "string list"

text \<open>
  A parsed docstring. The comment in \<^verbatim>\<open>visit_FunctionDef\<close> lists the sections of
  a \<^verbatim>\<open>NumpyDocString\<close> object, all of them always present; \<^verbatim>\<open>doc.get(section)\<close>
  is the field, and \<^verbatim>\<open>bool(doc.get(section))\<close> says that it is not empty.
\<close>

record NumpyDocString =
  Signature :: string
  Summary :: "string list"
  Extended_Summary :: "string list"
  Parameters :: "Parameter list"
  Returns :: "Parameter list"
  Yields :: "Parameter list"
  Receives :: "Parameter list"
  Raises :: "Parameter list"
  Warns :: "Parameter list"
  Other_Parameters :: "Parameter list"
  Attributes :: "Parameter list"
  Methods :: "Parameter list"
  See_Also :: "string list"
  Notes :: "string list"
  Warnings :: "string list"
  References :: string
  Examples :: string
  index :: "(string \<times> string) list"

text \<open>
  Modelled from the spec: \<^verbatim>\<open>isShortDocstring\<close> of \<^verbatim>\<open>pydoclint.utils.generic\<close>
  is not among the sources. The spec calls a documentation comment short when it
  contains only a one-line summary and no structured sections.
\<close>

definition isShortDocstring :: "NumpyDocString \<Rightarrow> bool" where
  "isShortDocstring doc =
     (length (Summary doc) = 1 \<and> Extended_Summary doc = [] \<and> Parameters doc = [] \<and>
      Returns doc = [] \<and> Yields doc = [] \<and> Receives doc = [] \<and> Raises doc = [] \<and>
      Warns doc = [] \<and> Other_Parameters doc = [] \<and> Attributes doc = [] \<and>
      Methods doc = [] \<and> See_Also doc = [] \<and> Notes doc = [] \<and> Warnings doc = [] \<and>
      References doc = [] \<and> Examples doc = [])"

section \<open>The signature argument model\<close>

text \<open>
  Modelled from the spec: the classes \<^verbatim>\<open>Arg\<close> and \<^verbatim>\<open>ArgList\<close> of
  \<^verbatim>\<open>pydoclint.arg\<close> are not among the sources. The spec gives an Arg a name, an
  optional type hint and an optional default value that is never compared; two Args
  are equal under \<^verbatim>\<open>checkTypeHint\<close> when the names match and, if the flag is set,
  the type hints match too.
\<close>

record Arg =
  argName :: string
  typeHint :: "string option"
  defaultValue :: "string option"

type_synonym ArgList = "Arg list"

definition argEquals :: "bool \<Rightarrow> Arg \<Rightarrow> Arg \<Rightarrow> bool" where
  "argEquals checkTypeHint a b =
     (if checkTypeHint then argName a = argName b \<and> typeHint a = typeHint b
      else argName a = argName b)"

text \<open>
  Modelled from the spec: \<^verbatim>\<open>ArgList.equals(other, checkTypeHint, orderMatters)\<close>
  compares the two lists as sequences, position by position, when the order matters,
  and as sets of Args under the same equality of elements when it does not.
\<close>

definition equals :: "ArgList \<Rightarrow> ArgList \<Rightarrow> bool \<Rightarrow> bool \<Rightarrow> bool" where
  "equals self other checkTypeHint orderMatters =
     (if orderMatters then list_all2 (argEquals checkTypeHint) self other
      else list_all (\<lambda>a. list_ex (argEquals checkTypeHint a) other) self \<and>
           list_all (\<lambda>b. list_ex (argEquals checkTypeHint b) self) other)"

text \<open>
  Modelled from the spec: \<^verbatim>\<open>ArgList.subtract(other)\<close> is the set of the Args of
  the list that are absent from the other one, an Arg being identified by its name
  and type hint.
\<close>

definition subtract :: "ArgList \<Rightarrow> ArgList \<Rightarrow> Arg set" where
  "subtract self other =
     set (filter (\<lambda>a. \<not> list_ex (\<lambda>b. argName a = argName b \<and> typeHint a = typeHint b) other)
       self)"

section \<open>Violations and the functions the visitor imports\<close>

record Violation =
  code :: int
  line :: int
  msgPrefix :: string
  msgPostfix :: string

text \<open>
  Modelled from the spec: the enumeration \<^verbatim>\<open>MethodType\<close> of
  \<^verbatim>\<open>pydoclint.method_type\<close> is not among the sources; the spec names these
  categories of a definition.
\<close>

datatype MethodType =
  FUNCTION | INSTANCE_METHOD | CLASS_METHOD | STATIC_METHOD | CONSTRUCTOR

text \<open>
  The visitor imports the functions below from modules that are not among the sources.
  They are pure functions of the tree, and the visitor uses nothing of them but their
  results, so they are parameters of the model: every theorem holds whatever they
  compute. \<^verbatim>\<open>parseDocstring\<close> is the constructor \<^verbatim>\<open>NumpyDocString(docstring)\<close>,
  \<^verbatim>\<open>reprSorted\<close> is the text Python prints for \<^verbatim>\<open>sorted(s)\<close> of a set of Args.
\<close>

record extern =
  getDocstring :: "node \<Rightarrow> string"
  parseDocstring :: "string \<Rightarrow> NumpyDocString"
  detectMethodType :: "node \<Rightarrow> MethodType"
  generateMsgPrefix :: "node \<Rightarrow> node option \<Rightarrow> bool \<Rightarrow> string"
  hasReturnStatements :: "node \<Rightarrow> bool"
  hasReturnAnnotation :: "node \<Rightarrow> bool"
  hasGeneratorAsReturnAnnotation :: "node \<Rightarrow> bool"
  hasYieldStatements :: "node \<Rightarrow> bool"
  hasRaiseStatements :: "node \<Rightarrow> bool"
  fromNumpydocParam :: "Parameter \<Rightarrow> Arg"
  fromAstArg :: "astArg \<Rightarrow> Arg"
  reprSorted :: "Arg set \<Rightarrow> string"

section \<open>The visitor\<close>

record Visitor =
  checkTypeHint :: bool
  checkArgOrder :: bool
  skipCheckingShortDocstrings :: bool
  skipCheckingRaises :: bool
  parent :: "node option"
  violations :: "Violation list"

text \<open>\<^verbatim>\<open>Visitor.__init__\<close>: the four options, no parent, no violation yet.\<close>

definition Visitor_init :: "bool \<Rightarrow> bool \<Rightarrow> bool \<Rightarrow> bool \<Rightarrow> Visitor" where
  "Visitor_init cth cao sksd skr =
     \<lparr>checkTypeHint = cth, checkArgOrder = cao, skipCheckingShortDocstrings = sksd,
      skipCheckingRaises = skr, parent = None, violations = []\<rparr>"

text \<open>\<^verbatim>\<open>sep.join(parts)\<close> of Python strings.\<close>

fun join :: "string \<Rightarrow> string list \<Rightarrow> string" where
  "join sep [] = []"
| "join sep [p] = p"
| "join sep (p # q # ps) = p @ sep @ join sep (q # ps)"

text \<open>\<^verbatim>\<open>Visitor.validateDocArgs\<close>.\<close>

definition validateDocArgs ::
  "extern \<Rightarrow> Visitor \<Rightarrow> Parameter list \<Rightarrow> astArg list \<Rightarrow> node \<Rightarrow> string \<Rightarrow> Violation list"
where
  "validateDocArgs e self docArgList actualArgs node msgPrefix' =
     (let lineNum = lineno node;
          v101 = \<lparr>code = 101, line = lineNum, msgPrefix = msgPrefix', msgPostfix = []\<rparr>;
          v102 = \<lparr>code = 102, line = lineNum, msgPrefix = msgPrefix', msgPostfix = []\<rparr>;
          v104 = \<lparr>code = 104, line = lineNum, msgPrefix = msgPrefix', msgPostfix = []\<rparr>;
          v105 = \<lparr>code = 105, line = lineNum, msgPrefix = msgPrefix', msgPostfix = []\<rparr>;
          docArgs = map (fromNumpydocParam e) docArgList;
          funcArgs = map (fromAstArg e) actualArgs
      in if length docArgs = 0 \<and> length funcArgs = 0 then []
         else
           (if length docArgs < length funcArgs then [v101] else []) @
           (if length docArgs > length funcArgs then [v102] else []) @
           (if \<not> equals docArgs funcArgs (checkTypeHint self) (checkArgOrder self) then
              (if equals docArgs funcArgs (checkTypeHint self) False then [v104]
               else if equals docArgs funcArgs False (checkArgOrder self) then [v105]
               else if equals docArgs funcArgs False False then [v104, v105]
               else
                 (let argsInFuncNotInDoc = subtract funcArgs docArgs;
                      argsInDocNotInFunc = subtract docArgs funcArgs;
                      msgPostfixParts =
                        (if argsInFuncNotInDoc \<noteq> {} then
                           [''Arguments in the function signature but not in the docstring: ''
                            @ reprSorted e argsInFuncNotInDoc @ ''.'']
                         else []) @
                        (if argsInDocNotInFunc \<noteq> {} then
                           [''Arguments in the docstring but not in the function signature: ''
                            @ reprSorted e argsInDocNotInFunc @ ''.'']
                         else [])
                  in [\<lparr>code = 103, line = lineNum, msgPrefix = msgPrefix',
                       msgPostfix = join '' '' msgPostfixParts\<rparr>]))
            else []))"

text \<open>\<^verbatim>\<open>Visitor.checkArguments\<close>: the first parameter of an instance or class method
  is not documented; \<^verbatim>\<open>argList[1:]\<close> of an empty list is the empty list.\<close>

definition checkArguments ::
  "extern \<Rightarrow> Visitor \<Rightarrow> node \<Rightarrow> node option \<Rightarrow> NumpyDocString \<Rightarrow> Violation list"
where
  "checkArguments e self node parent' docstringStruct =
     (let argList = args node;
          isMethod = isClassDef parent';
          msgPrefix' = generateMsgPrefix e node parent' True;
          argList =
            (if isMethod then
               (let mType = detectMethodType e node
                in if mType \<in> {INSTANCE_METHOD, CLASS_METHOD} then tl argList else argList)
             else argList);
          docArgList = Parameters docstringStruct
      in validateDocArgs e self docArgList argList node msgPrefix')"

text \<open>\<^verbatim>\<open>Visitor.checkReturns\<close>.\<close>

definition checkReturns :: "extern \<Rightarrow> node \<Rightarrow> node option \<Rightarrow> NumpyDocString \<Rightarrow> Violation list"
where
  "checkReturns e node parent' nonEmptyDocStruct =
     (let lineNum = lineno node;
          msgPrefix' = generateMsgPrefix e node parent' False;
          v201 = \<lparr>code = 201, line = lineNum, msgPrefix = msgPrefix', msgPostfix = []\<rparr>;
          v202 = \<lparr>code = 202, line = lineNum, msgPrefix = msgPrefix', msgPostfix = []\<rparr>;
          hasReturnStmt = hasReturnStatements e node;
          hasReturnAnno = hasReturnAnnotation e node;
          hasGenAsRetAnno = hasGeneratorAsReturnAnnotation e node;
          docstringHasReturnSection = (Returns nonEmptyDocStruct \<noteq> [])
      in (if \<not> docstringHasReturnSection then
            (if hasReturnStmt \<or> (hasReturnAnno \<and> \<not> hasGenAsRetAnno) then [v201] else [])
          else []) @
         (if docstringHasReturnSection \<and> \<not> (hasReturnStmt \<or> hasReturnAnno) then [v202]
          else []))"

text \<open>\<^verbatim>\<open>Visitor.checkReturnsInClassConstructor\<close>: the line and the name are the
  enclosing class's.\<close>

definition checkReturnsInClassConstructor :: "node \<Rightarrow> NumpyDocString \<Rightarrow> Violation list" where
  "checkReturnsInClassConstructor parent' nonEmptyDocStruct =
     (let docstringHasReturnSection = (Returns nonEmptyDocStruct \<noteq> [])
      in if docstringHasReturnSection then
           [\<lparr>code = 302, line = lineno parent',
             msgPrefix = ''Class `'' @ name parent' @ ''`:'', msgPostfix = []\<rparr>]
         else [])"

text \<open>\<^verbatim>\<open>Visitor.checkYields\<close>.\<close>

definition checkYields :: "extern \<Rightarrow> node \<Rightarrow> node option \<Rightarrow> NumpyDocString \<Rightarrow> Violation list"
where
  "checkYields e node parent' nonEmptyDocStruct =
     (let lineNum = lineno node;
          msgPrefix' = generateMsgPrefix e node parent' False;
          v401 = \<lparr>code = 401, line = lineNum, msgPrefix = msgPrefix', msgPostfix = []\<rparr>;
          v402 = \<lparr>code = 402, line = lineNum, msgPrefix = msgPrefix', msgPostfix = []\<rparr>;
          v403 = \<lparr>code = 403, line = lineNum, msgPrefix = msgPrefix', msgPostfix = []\<rparr>;
          docstringHasYieldsSection = (Yields nonEmptyDocStruct \<noteq> []);
          hasYieldStmt = hasYieldStatements e node;
          hasGenAsRetAnno = hasGeneratorAsReturnAnnotation e node
      in (if \<not> docstringHasYieldsSection then
            (if hasGenAsRetAnno then [v401] else []) @ (if hasYieldStmt then [v402] else [])
          else []) @
         (if docstringHasYieldsSection then
            (if \<not> hasYieldStmt \<and> \<not> hasGenAsRetAnno then [v403] else [])
          else []))"

text \<open>\<^verbatim>\<open>Visitor.checkRaises\<close>.\<close>

definition checkRaises :: "extern \<Rightarrow> node \<Rightarrow> node option \<Rightarrow> NumpyDocString \<Rightarrow> Violation list"
where
  "checkRaises e node parent' nonEmptyDocStruct =
     (let lineNum = lineno node;
          msgPrefix' = generateMsgPrefix e node parent' False;
          v501 = \<lparr>code = 501, line = lineNum, msgPrefix = msgPrefix', msgPostfix = []\<rparr>;
          v502 = \<lparr>code = 502, line = lineNum, msgPrefix = msgPrefix', msgPostfix = []\<rparr>;
          docstringHasRaisesSection = (Raises nonEmptyDocStruct \<noteq> []);
          hasRaiseStmt = hasRaiseStatements e node
      in (if hasRaiseStmt \<and> \<not> docstringHasRaisesSection then [v501] else []) @
         (if \<not> hasRaiseStmt \<and> docstringHasRaisesSection then [v502] else []))"

text \<open>
  The part of \<^verbatim>\<open>visit_FunctionDef\<close> between saving the parent and walking into the
  body: the violations it appends to \<^verbatim>\<open>self.violations\<close> for the definition
  \<^verbatim>\<open>node\<close> itself, \<^verbatim>\<open>parent'\<close> being the parent saved on entry. Violation 301 is
  appended first; the results of the four checks follow in the order arguments,
  returns, yields, raises. The inner test of the docstring against the empty string
  is the source's, although the outer test has already excluded it.
\<close>

definition checkFunctionDef ::
  "extern \<Rightarrow> Visitor \<Rightarrow> node option \<Rightarrow> node \<Rightarrow> Violation list"
where
  "checkFunctionDef e self parent' node =
     (let isClassConstructor = (name node = ''__init__'' \<and> isClassDef parent');
          docstring = getDocstring e node;
          v301s =
            (if isClassConstructor \<and> length docstring > 0 then
               [\<lparr>code = 301, line = lineno node,
                 msgPrefix = ''Class `'' @ name (the parent') @ ''`:'', msgPostfix = []\<rparr>]
             else []);
          docstring = (if isClassConstructor then getDocstring e (the parent') else docstring);
          (argViolations, returnViolations, yieldViolations, raiseViolations) =
            (if docstring = [] then ([], [], [], [])
             else
               (let doc = parseDocstring e docstring;
                    isShort = isShortDocstring doc;
                    (argViolations, returnViolations, yieldViolations, raiseViolations) =
                      (if skipCheckingShortDocstrings self \<and> isShort then ([], [], [], [])
                       else
                         (let argViolations = checkArguments e self node parent' doc
                          in if docstring = [] then (argViolations, [], [], [])
                             else
                               (argViolations,
                                checkReturns e node parent' doc,
                                checkYields e node parent' doc,
                                if \<not> skipCheckingRaises self then checkRaises e node parent' doc
                                else [])));
                    returnViolations =
                      (if isClassConstructor then checkReturnsInClassConstructor (the parent') doc
                       else returnViolations)
                in (argViolations, returnViolations, yieldViolations, raiseViolations)))
      in v301s @ argViolations @ returnViolations @ yieldViolations @ raiseViolations)"

text \<open>
  The walk. \<^verbatim>\<open>visit\<close> is the dispatch of \<^verbatim>\<open>ast.NodeVisitor\<close> on the class of
  the node, \<^verbatim>\<open>generic_visit\<close> visits the child nodes in order; a node of a class
  without a method of its own goes to \<^verbatim>\<open>generic_visit\<close>. The visitor is passed
  along and returned updated.
\<close>

text \<open>A child node is smaller than its node: the walk terminates on every tree.\<close>

lemma size_body: "child \<in> set (body node) \<Longrightarrow> size child < size node"
  by (cases node) (auto simp: less_Suc_eq_le size_list_estimation')

function
  visit :: "extern \<Rightarrow> Visitor \<Rightarrow> node \<Rightarrow> Visitor" and
  visit_ClassDef :: "extern \<Rightarrow> Visitor \<Rightarrow> node \<Rightarrow> Visitor" and
  visit_FunctionDef :: "extern \<Rightarrow> Visitor \<Rightarrow> node \<Rightarrow> Visitor" and
  visit_AsyncFunctionDef :: "extern \<Rightarrow> Visitor \<Rightarrow> node \<Rightarrow> Visitor" and
  visit_Raise :: "extern \<Rightarrow> Visitor \<Rightarrow> node \<Rightarrow> Visitor" and
  generic_visit :: "extern \<Rightarrow> Visitor \<Rightarrow> node \<Rightarrow> Visitor"
where
  "visit e self node =
     (case node of
        ClassDef n l b \<Rightarrow> visit_ClassDef e self node
      | FunctionDef n l a b \<Rightarrow> visit_FunctionDef e self node
      | AsyncFunctionDef n l a b \<Rightarrow> visit_AsyncFunctionDef e self node
      | Raise b \<Rightarrow> visit_Raise e self node
      | Other b \<Rightarrow> generic_visit e self node)"
| "visit_ClassDef e self node =
     (let currentParent = parent self;
          self = self\<lparr>parent := Some node\<rparr>;
          self = generic_visit e self node
      in self\<lparr>parent := currentParent\<rparr>)"
| "visit_FunctionDef e self node =
     (let parent' = parent self;
          self = self\<lparr>parent := Some node\<rparr>;
          self = self\<lparr>violations := violations self @ checkFunctionDef e self parent' node\<rparr>;
          self = generic_visit e self node
      in self\<lparr>parent := parent'\<rparr>)"
| "visit_AsyncFunctionDef e self node = visit_FunctionDef e self node"
| "visit_Raise e self node = generic_visit e self node"
| "generic_visit e self node = fold (\<lambda>child s. visit e s child) (body node) self"
  by pat_completeness auto
termination
  by (lexicographic_order simp: size_body)

text \<open>The equations hold for every node, and unfold one another forever: they are
  used one step at a time.\<close>

declare visit.simps [simp del] visit_ClassDef.simps [simp del]
  visit_FunctionDef.simps [simp del] visit_AsyncFunctionDef.simps [simp del]
  visit_Raise.simps [simp del] generic_visit.simps [simp del]

section \<open>Notions for stating the properties\<close>

text \<open>
  The local values of \<^verbatim>\<open>visit_FunctionDef\<close> by name: whether the definition is a
  class constructor, the docstring that is checked (the class's for a constructor, the
  definition's own otherwise), and the violation 301 of a constructor that has a
  docstring of its own.
\<close>

definition isClassConstructor :: "node option \<Rightarrow> node \<Rightarrow> bool" where
  "isClassConstructor parent' node = (name node = ''__init__'' \<and> isClassDef parent')"

definition workingDocstring :: "extern \<Rightarrow> node option \<Rightarrow> node \<Rightarrow> string" where
  "workingDocstring e parent' node =
     (if isClassConstructor parent' node then getDocstring e (the parent')
      else getDocstring e node)"

definition constructorDocViolation :: "extern \<Rightarrow> node option \<Rightarrow> node \<Rightarrow> Violation list" where
  "constructorDocViolation e parent' node =
     (if isClassConstructor parent' node \<and> length (getDocstring e node) > 0 then
        [\<lparr>code = 301, line = lineno node,
          msgPrefix = ''Class `'' @ name (the parent') @ ''`:'', msgPostfix = []\<rparr>]
      else [])"

text \<open>
  A definition is checked when its working docstring is not empty and is not skipped
  as a short one.
\<close>

definition isChecked :: "extern \<Rightarrow> Visitor \<Rightarrow> node option \<Rightarrow> node \<Rightarrow> bool" where
  "isChecked e self parent' node =
     (workingDocstring e parent' node \<noteq> [] \<and>
      \<not> (skipCheckingShortDocstrings self \<and>
           isShortDocstring (parseDocstring e (workingDocstring e parent' node))))"

text \<open>The violations of a list whose code is one of a set of codes, in order.\<close>

definition withCodes :: "int set \<Rightarrow> Violation list \<Rightarrow> Violation list" where
  "withCodes S vs = filter (\<lambda>v. code v \<in> S) vs"

text \<open>Two visitors with the same four options.\<close>

definition sameOptions :: "Visitor \<Rightarrow> Visitor \<Rightarrow> bool" where
  "sameOptions s t =
     (checkTypeHint s = checkTypeHint t \<and> checkArgOrder s = checkArgOrder t \<and>
      skipCheckingShortDocstrings s = skipCheckingShortDocstrings t \<and>
      skipCheckingRaises s = skipCheckingRaises t)"

text \<open>A visitor with more violations in front of its own.\<close>

definition prepend :: "Violation list \<Rightarrow> Visitor \<Rightarrow> Visitor" where
  "prepend vs s = s\<lparr>violations := vs @ violations s\<rparr>"

text \<open>
  What one run over a tree adds to the visitor's list: the list after the run, less
  the violations that were there before.
\<close>

definition emitted :: "extern \<Rightarrow> Visitor \<Rightarrow> node \<Rightarrow> Violation list" where
  "emitted e self tree = drop (length (violations self)) (violations (visit e self tree))"

text \<open>A visitor with the options of \<^verbatim>\<open>s0\<close> all of whose violations satisfy \<^verbatim>\<open>Q\<close>.\<close>

definition allowed :: "Visitor \<Rightarrow> (Violation \<Rightarrow> bool) \<Rightarrow> Visitor \<Rightarrow> bool" where
  "allowed s0 Q s = (sameOptions s s0 \<and> list_all Q (violations s))"

section \<open>An example module\<close>

text \<open>
  The module of the examples:
  \<^verbatim>\<open>
   1  class Foo:
   2      """A class.  (Parameters: x : int.  Returns: int.)"""
   3      def __init__(self, x: int):
   4          """Own docstring."""
   5          raise ValueError(x)
   8  def gen(n) -> Generator:
   9      """Count.  (Parameters: n.)"""
  10      yield n
  12  def plain(a):
  13      return a
  15  async def short(a):
  16      """Short."""
  17      return a
  \<close>
  with the imported functions answering for it: the docstrings, their parsed sections
  and what the predicates find in each body.
\<close>

definition exParam :: "string \<Rightarrow> string \<Rightarrow> Parameter" where
  "exParam n t = \<lparr>pname = n, ptype = t, pdesc = []\<rparr>"

definition exDoc ::
  "string list \<Rightarrow> Parameter list \<Rightarrow> Parameter list \<Rightarrow> Parameter list \<Rightarrow> Parameter list \<Rightarrow>
   NumpyDocString"
where
  "exDoc summary ps rs ys xs =
     \<lparr>Signature = [], Summary = summary, Extended_Summary = [], Parameters = ps,
      Returns = rs, Yields = ys, Receives = [], Raises = xs, Warns = [],
      Other_Parameters = [], Attributes = [], Methods = [], See_Also = [], Notes = [],
      Warnings = [], References = [], Examples = [], index = []\<rparr>"

definition exExtern :: extern where
  "exExtern =
     \<lparr>getDocstring = (\<lambda>n. case n of
          ClassDef nm l b \<Rightarrow> if nm = ''Foo'' then ''Foo docs'' else []
        | FunctionDef nm l a b \<Rightarrow>
            if nm = ''__init__'' then ''init docs''
            else if nm = ''gen'' then ''gen docs'' else []
        | AsyncFunctionDef nm l a b \<Rightarrow> if nm = ''short'' then ''short docs'' else []
        | Raise b \<Rightarrow> []
        | Other b \<Rightarrow> []),
      parseDocstring = (\<lambda>s.
          if s = ''Foo docs'' then
            exDoc [''A class.''] [exParam ''x'' ''int''] [exParam [] ''int''] [] []
          else if s = ''gen docs'' then exDoc [''Count.''] [exParam ''n'' []] [] [] []
          else exDoc [s] [] [] [] []),
      detectMethodType = (\<lambda>n. if name n = ''__init__'' then INSTANCE_METHOD else FUNCTION),
      generateMsgPrefix = (\<lambda>n p appendColon.
          (if isClassDef p then ''Method `'' @ name (the p) @ ''.'' else ''Function `'') @
          name n @ ''`'' @ (if appendColon then '':'' else [])),
      hasReturnStatements = (\<lambda>n. name n = ''plain'' \<or> name n = ''short''),
      hasReturnAnnotation = (\<lambda>n. name n = ''gen''),
      hasGeneratorAsReturnAnnotation = (\<lambda>n. name n = ''gen''),
      hasYieldStatements = (\<lambda>n. name n = ''gen''),
      hasRaiseStatements = (\<lambda>n. name n = ''__init__''),
      fromNumpydocParam = (\<lambda>p.
          \<lparr>argName = pname p, typeHint = (if ptype p = [] then None else Some (ptype p)),
           defaultValue = None\<rparr>),
      fromAstArg = (\<lambda>a. \<lparr>argName = arg a, typeHint = annotation a, defaultValue = None\<rparr>),
      reprSorted = (\<lambda>s. ''[...]'')\<rparr>"

definition exInit :: node where
  "exInit = FunctionDef ''__init__'' 3
     [\<lparr>arg = ''self'', annotation = None\<rparr>, \<lparr>arg = ''x'', annotation = Some ''int''\<rparr>]
     [Raise []]"

definition exFoo :: node where
  "exFoo = ClassDef ''Foo'' 1 [exInit]"

definition exGen :: node where
  "exGen = FunctionDef ''gen'' 8 [\<lparr>arg = ''n'', annotation = None\<rparr>] [Other []]"

definition exPlain :: node where
  "exPlain = FunctionDef ''plain'' 12 [\<lparr>arg = ''a'', annotation = None\<rparr>] [Other []]"

definition exShort :: node where
  "exShort = AsyncFunctionDef ''short'' 15 [\<lparr>arg = ''a'', annotation = None\<rparr>] [Other []]"

definition exModule :: node where
  "exModule = Other [exFoo, exGen, exPlain, exShort]"

section \<open>Properties\<close>

subsection \<open>What each check emits\<close>

text \<open>
  The codes and the lines of the violations of each check, read off its definition.
\<close>

lemma equals_Nil: "equals [] [] c ord"
  by (simp add: equals_def)

lemma validateDocArgs_codes:
  "map code (validateDocArgs e self docArgList actualArgs node pre) =
     (let docArgs = map (fromNumpydocParam e) docArgList;
          funcArgs = map (fromAstArg e) actualArgs
      in (if length docArgs < length funcArgs then [101] else []) @
         (if length docArgs > length funcArgs then [102] else []) @
         (if equals docArgs funcArgs (checkTypeHint self) (checkArgOrder self) then []
          else if equals docArgs funcArgs (checkTypeHint self) False then [104]
          else if equals docArgs funcArgs False (checkArgOrder self) then [105]
          else if equals docArgs funcArgs False False then [104, 105]
          else [103]))"
  by (cases docArgList; cases actualArgs) (simp_all add: validateDocArgs_def Let_def equals_Nil)

lemma validateDocArgs_line:
  "v \<in> set (validateDocArgs e self docArgList actualArgs node pre) \<Longrightarrow> line v = lineno node"
  by (auto simp: validateDocArgs_def Let_def split: if_splits)

lemma validateDocArgs_code_range:
  assumes "v \<in> set (validateDocArgs e self docArgList actualArgs node pre)"
  shows "code v \<in> {101, 102, 103, 104, 105}"
proof -
  from assms have "code v \<in> set (map code (validateDocArgs e self docArgList actualArgs node pre))"
    by simp
  then show ?thesis
    unfolding validateDocArgs_codes by (auto simp: Let_def split: if_splits)
qed

lemma checkArguments_line:
  "v \<in> set (checkArguments e self node p d) \<Longrightarrow> line v = lineno node"
  by (auto simp: checkArguments_def Let_def dest: validateDocArgs_line)

lemma checkArguments_code_range:
  "v \<in> set (checkArguments e self node p d) \<Longrightarrow> code v \<in> {101, 102, 103, 104, 105}"
  unfolding checkArguments_def Let_def by (rule validateDocArgs_code_range)

lemma checkReturns_codes:
  "map code (checkReturns e node p d) =
     (if Returns d = [] \<and>
         (hasReturnStatements e node \<or>
          (hasReturnAnnotation e node \<and> \<not> hasGeneratorAsReturnAnnotation e node))
      then [201] else []) @
     (if Returns d \<noteq> [] \<and> \<not> (hasReturnStatements e node \<or> hasReturnAnnotation e node)
      then [202] else [])"
  by (simp add: checkReturns_def Let_def)

lemma checkReturns_line: "v \<in> set (checkReturns e node p d) \<Longrightarrow> line v = lineno node"
  by (auto simp: checkReturns_def Let_def split: if_splits)

lemma checkReturns_code_range:
  "v \<in> set (checkReturns e node p d) \<Longrightarrow> code v \<in> {201, 202}"
  by (auto simp: checkReturns_def Let_def split: if_splits)

lemma checkYields_codes:
  "map code (checkYields e node p d) =
     (if Yields d = [] \<and> hasGeneratorAsReturnAnnotation e node then [401] else []) @
     (if Yields d = [] \<and> hasYieldStatements e node then [402] else []) @
     (if Yields d \<noteq> [] \<and> \<not> hasYieldStatements e node \<and>
         \<not> hasGeneratorAsReturnAnnotation e node
      then [403] else [])"
  by (simp add: checkYields_def Let_def)

lemma checkYields_line: "v \<in> set (checkYields e node p d) \<Longrightarrow> line v = lineno node"
  by (auto simp: checkYields_def Let_def split: if_splits)

lemma checkYields_code_range:
  "v \<in> set (checkYields e node p d) \<Longrightarrow> code v \<in> {401, 402, 403}"
  by (auto simp: checkYields_def Let_def split: if_splits)

lemma checkRaises_codes:
  "map code (checkRaises e node p d) =
     (if hasRaiseStatements e node \<and> Raises d = [] then [501] else []) @
     (if \<not> hasRaiseStatements e node \<and> Raises d \<noteq> [] then [502] else [])"
  by (simp add: checkRaises_def Let_def)

lemma checkRaises_line: "v \<in> set (checkRaises e node p d) \<Longrightarrow> line v = lineno node"
  by (auto simp: checkRaises_def Let_def split: if_splits)

lemma checkRaises_code_range:
  "v \<in> set (checkRaises e node p d) \<Longrightarrow> code v \<in> {501, 502}"
  by (auto simp: checkRaises_def Let_def split: if_splits)

lemma checkReturnsInClassConstructor_codes:
  "map code (checkReturnsInClassConstructor c d) = (if Returns d \<noteq> [] then [302] else [])"
  by (simp add: checkReturnsInClassConstructor_def)

lemma checkReturnsInClassConstructor_line:
  "v \<in> set (checkReturnsInClassConstructor c d) \<Longrightarrow> code v = 302 \<and> line v = lineno c"
  by (auto simp: checkReturnsInClassConstructor_def split: if_splits)

subsection \<open>The violations of one definition\<close>

text \<open>
  The three ways through \<^verbatim>\<open>visit_FunctionDef\<close>: an empty working docstring, a short one
  that is skipped, and a docstring that is checked.
\<close>

lemma checkFunctionDef_empty:
  "workingDocstring e p node = [] \<Longrightarrow>
   checkFunctionDef e self p node = constructorDocViolation e p node"
  by (cases "name node = ''__init__'' \<and> isClassDef p")
    (auto simp: checkFunctionDef_def workingDocstring_def constructorDocViolation_def
      isClassConstructor_def Let_def)

lemma checkFunctionDef_skipped:
  "workingDocstring e p node \<noteq> [] \<Longrightarrow> skipCheckingShortDocstrings self \<Longrightarrow>
   isShortDocstring (parseDocstring e (workingDocstring e p node)) \<Longrightarrow>
   checkFunctionDef e self p node =
     constructorDocViolation e p node @
     (if isClassConstructor p node then
        checkReturnsInClassConstructor (the p) (parseDocstring e (workingDocstring e p node))
      else [])"
  by (cases "name node = ''__init__'' \<and> isClassDef p")
    (auto simp: checkFunctionDef_def workingDocstring_def constructorDocViolation_def
      isClassConstructor_def Let_def)

lemma checkFunctionDef_checked:
  "workingDocstring e p node \<noteq> [] \<Longrightarrow>
   \<not> (skipCheckingShortDocstrings self \<and>
      isShortDocstring (parseDocstring e (workingDocstring e p node))) \<Longrightarrow>
   checkFunctionDef e self p node =
     (let doc = parseDocstring e (workingDocstring e p node)
      in constructorDocViolation e p node @
         checkArguments e self node p doc @
         (if isClassConstructor p node then checkReturnsInClassConstructor (the p) doc
          else checkReturns e node p doc) @
         checkYields e node p doc @
         (if \<not> skipCheckingRaises self then checkRaises e node p doc else []))"
  by (cases "name node = ''__init__'' \<and> isClassDef p")
    (auto simp: checkFunctionDef_def workingDocstring_def constructorDocViolation_def
      isClassConstructor_def Let_def)

lemma short_no_Returns: "isShortDocstring d \<Longrightarrow> Returns d = []"
  by (simp add: isShortDocstring_def)

lemma constructorDocViolation_line:
  "v \<in> set (constructorDocViolation e p node) \<Longrightarrow> code v = 301 \<and> line v = lineno node"
  by (auto simp: constructorDocViolation_def split: if_splits)

subsection \<open>The checks read the options only\<close>

text \<open>
  Of the visitor the checks read the four options, never the parent or the list of
  violations.
\<close>

lemma validateDocArgs_sameOptions:
  "sameOptions s t \<Longrightarrow> validateDocArgs e s d a n m = validateDocArgs e t d a n m"
  by (simp add: sameOptions_def validateDocArgs_def Let_def)

lemma checkArguments_sameOptions:
  "sameOptions s t \<Longrightarrow> checkArguments e s n p d = checkArguments e t n p d"
  by (simp add: checkArguments_def Let_def validateDocArgs_sameOptions [of s t])

lemma checkFunctionDef_sameOptions:
  assumes "sameOptions s t"
  shows "checkFunctionDef e s p n = checkFunctionDef e t p n"
proof -
  have "checkArguments e s = checkArguments e t"
    using assms by (intro ext) (rule checkArguments_sameOptions)
  moreover have "skipCheckingShortDocstrings s = skipCheckingShortDocstrings t"
    and "skipCheckingRaises s = skipCheckingRaises t"
    using assms by (simp_all add: sameOptions_def)
  ultimately show ?thesis
    by (simp add: checkFunctionDef_def Let_def)
qed

lemma checkFunctionDef_violations_irrelevant [simp]:
  "checkFunctionDef e (s\<lparr>violations := vs\<rparr>) p n = checkFunctionDef e s p n"
  by (rule checkFunctionDef_sameOptions) (simp add: sameOptions_def)

lemma checkFunctionDef_parent_irrelevant [simp]:
  "checkFunctionDef e (s\<lparr>parent := q\<rparr>) p n = checkFunctionDef e s p n"
  by (rule checkFunctionDef_sameOptions) (simp add: sameOptions_def)

subsection \<open>The walk changes the list of violations only\<close>

lemma fold_only_violations:
  assumes "\<And>c s. c \<in> set cs \<Longrightarrow> f c s = s\<lparr>violations := violations (f c s)\<rparr>"
  shows "fold f cs s = s\<lparr>violations := violations (fold f cs s)\<rparr>"
  using assms
proof (induction cs arbitrary: s)
  case Nil
  show ?case by simp
next
  case (Cons c cs)
  have step: "f c s = s\<lparr>violations := violations (f c s)\<rparr>"
    using Cons.prems by simp
  have rest: "fold f cs (f c s) = (f c s)\<lparr>violations := violations (fold f cs (f c s))\<rparr>"
    using Cons.IH Cons.prems by simp
  have "fold f (c # cs) s = fold f cs (f c s)" by simp
  also have "\<dots> = (f c s)\<lparr>violations := violations (fold f cs (f c s))\<rparr>" by (rule rest)
  also have "\<dots> = s\<lparr>violations := violations (fold f cs (f c s))\<rparr>"
    by (subst step) simp
  finally show ?case by simp
qed

lemma restore_parent:
  "g = (s\<lparr>parent := q\<rparr>)\<lparr>violations := vs\<rparr> \<Longrightarrow> g\<lparr>parent := parent s\<rparr> = s\<lparr>violations := vs\<rparr>"
  by simp

lemma restore_parent_appended:
  "g = (s\<lparr>parent := q, violations := ws\<rparr>)\<lparr>violations := vs\<rparr> \<Longrightarrow>
   g\<lparr>parent := parent s\<rparr> = s\<lparr>violations := vs\<rparr>"
  by simp

lemma visit_only_violations:
  "visit e s n = s\<lparr>violations := violations (visit e s n)\<rparr>"
  "visit_ClassDef e s n = s\<lparr>violations := violations (visit_ClassDef e s n)\<rparr>"
  "visit_FunctionDef e s n = s\<lparr>violations := violations (visit_FunctionDef e s n)\<rparr>"
  "visit_AsyncFunctionDef e s n = s\<lparr>violations := violations (visit_AsyncFunctionDef e s n)\<rparr>"
  "visit_Raise e s n = s\<lparr>violations := violations (visit_Raise e s n)\<rparr>"
  "generic_visit e s n = s\<lparr>violations := violations (generic_visit e s n)\<rparr>"
proof (induction e s n and e s n and e s n and e s n and e s n and e s n
    rule: visit_visit_ClassDef_visit_FunctionDef_visit_AsyncFunctionDef_visit_Raise_generic_visit.induct)
  case (1 e self node)
  then show ?case by (cases node) (simp_all add: visit.simps)
next
  case (2 e self node)
  from 2 [OF refl refl] restore_parent show ?case
    by (simp add: visit_ClassDef.simps Let_def)
next
  case (3 e self node)
  from 3 [OF refl refl refl] restore_parent_appended show ?case
    by (simp add: visit_FunctionDef.simps Let_def)
next
  case (4 e self node)
  then show ?case by (simp add: visit_AsyncFunctionDef.simps)
next
  case (5 e self node)
  then show ?case by (simp add: visit_Raise.simps)
next
  case (6 e self node)
  show ?case
    unfolding generic_visit.simps [of e self node]
    by (rule fold_only_violations) (rule 6)
qed

subsection \<open>Violations held before a run stay in front\<close>

text \<open>
  A run treats the violations the visitor already holds as a prefix it never reads:
  visiting commutes with putting more violations in front.
\<close>

lemma fold_prepend:
  assumes "\<And>c s. c \<in> set cs \<Longrightarrow> f c (prepend vs s) = prepend vs (f c s)"
  shows "fold f cs (prepend vs s) = prepend vs (fold f cs s)"
  using assms by (induction cs arbitrary: s) simp_all

lemma visit_prepend:
  "visit e (prepend vs s) n = prepend vs (visit e s n)"
  "visit_ClassDef e (prepend vs s) n = prepend vs (visit_ClassDef e s n)"
  "visit_FunctionDef e (prepend vs s) n = prepend vs (visit_FunctionDef e s n)"
  "visit_AsyncFunctionDef e (prepend vs s) n = prepend vs (visit_AsyncFunctionDef e s n)"
  "visit_Raise e (prepend vs s) n = prepend vs (visit_Raise e s n)"
  "generic_visit e (prepend vs s) n = prepend vs (generic_visit e s n)"
proof (induction e s n and e s n and e s n and e s n and e s n and e s n
    rule: visit_visit_ClassDef_visit_FunctionDef_visit_AsyncFunctionDef_visit_Raise_generic_visit.induct)
  case (1 e self node)
  then show ?case
    by (cases node) (simp_all add: visit.simps [of e "prepend vs self"] visit.simps [of e self])
next
  case (2 e self node)
  have "(prepend vs self)\<lparr>parent := Some node\<rparr> = prepend vs (self\<lparr>parent := Some node\<rparr>)"
    by (simp add: prepend_def)
  with 2 [OF refl refl] show ?case
    by (simp add: visit_ClassDef.simps Let_def) (simp add: prepend_def)
next
  case (3 e self node)
  have "(prepend vs self)\<lparr>parent := Some node,
          violations := violations ((prepend vs self)\<lparr>parent := Some node\<rparr>) @
            checkFunctionDef e self (parent self) node\<rparr> =
        prepend vs (self\<lparr>parent := Some node,
          violations := violations (self\<lparr>parent := Some node\<rparr>) @
            checkFunctionDef e self (parent self) node\<rparr>)"
    by (simp add: prepend_def)
  with 3 [OF refl refl refl] show ?case
    by (simp add: visit_FunctionDef.simps Let_def prepend_def)
next
  case (4 e self node)
  then show ?case by (simp add: visit_AsyncFunctionDef.simps)
next
  case (5 e self node)
  then show ?case by (simp add: visit_Raise.simps)
next
  case (6 e self node)
  show ?case
    unfolding generic_visit.simps [of e "prepend vs self" node] generic_visit.simps [of e self node]
    by (rule fold_prepend) (rule 6)
qed

lemma violations_visit:
  "violations (visit e s n) = violations s @ violations (visit e (s\<lparr>violations := []\<rparr>) n)"
proof -
  have "s = prepend (violations s) (s\<lparr>violations := []\<rparr>)"
    by (simp add: prepend_def)
  then have "visit e s n = prepend (violations s) (visit e (s\<lparr>violations := []\<rparr>) n)"
    using visit_prepend(1) by metis
  then show ?thesis by (simp add: prepend_def)
qed

lemma emitted_fresh: "emitted e s n = violations (visit e (s\<lparr>violations := []\<rparr>) n)"
  by (simp add: emitted_def violations_visit [of e s n])

lemma violations_visit_emitted: "violations (visit e s n) = violations s @ emitted e s n"
  using violations_visit [of e s n] by (simp add: emitted_fresh)

lemma emitted_depends:
  assumes "sameOptions s t" and "parent s = parent t"
  shows "emitted e s n = emitted e t n"
proof -
  have "s\<lparr>violations := []\<rparr> = t\<lparr>violations := []\<rparr>"
    using assms by (cases s; cases t) (simp add: sameOptions_def)
  then show ?thesis by (simp add: emitted_fresh)
qed

lemma visit_keeps:
  "sameOptions (visit e s n) s" "parent (visit e s n) = parent s"
proof -
  have "visit e s n = s\<lparr>violations := violations (visit e s n)\<rparr>"
    by (rule visit_only_violations)
  then obtain vs where "visit e s n = s\<lparr>violations := vs\<rparr>" ..
  then show "sameOptions (visit e s n) s" "parent (visit e s n) = parent s"
    by (simp_all add: sameOptions_def)
qed

lemma emitted_again: "emitted e (visit e s n) n = emitted e s n"
  by (rule emitted_depends) (rule visit_keeps)+

subsection \<open>A property of every violation a run emits\<close>

lemma fold_invariant:
  assumes "\<And>c s. c \<in> set cs \<Longrightarrow> I s \<Longrightarrow> I (f c s)" and "I s"
  shows "I (fold f cs s)"
  using assms by (induction cs arbitrary: s) simp_all

lemma allowed_parent [simp]: "allowed s0 Q (s\<lparr>parent := p\<rparr>) = allowed s0 Q s"
  by (simp add: allowed_def sameOptions_def)

lemma visit_allowed:
  assumes chk: "\<And>p n. list_all Q (checkFunctionDef e0 s0 p n)"
  shows "e = e0 \<Longrightarrow> allowed s0 Q s \<Longrightarrow> allowed s0 Q (visit e s n)"
    and "e = e0 \<Longrightarrow> allowed s0 Q s \<Longrightarrow> allowed s0 Q (visit_ClassDef e s n)"
    and "e = e0 \<Longrightarrow> allowed s0 Q s \<Longrightarrow> allowed s0 Q (visit_FunctionDef e s n)"
    and "e = e0 \<Longrightarrow> allowed s0 Q s \<Longrightarrow> allowed s0 Q (visit_AsyncFunctionDef e s n)"
    and "e = e0 \<Longrightarrow> allowed s0 Q s \<Longrightarrow> allowed s0 Q (visit_Raise e s n)"
    and "e = e0 \<Longrightarrow> allowed s0 Q s \<Longrightarrow> allowed s0 Q (generic_visit e s n)"
proof (induction e s n and e s n and e s n and e s n and e s n and e s n
    rule: visit_visit_ClassDef_visit_FunctionDef_visit_AsyncFunctionDef_visit_Raise_generic_visit.induct)
  case (1 e self node)
  then show ?case by (cases node) (simp_all add: visit.simps)
next
  case (2 e self node)
  from 2(2,3) have "allowed s0 Q (generic_visit e (self\<lparr>parent := Some node\<rparr>) node)"
    by (intro 2(1) [OF refl refl]) simp_all
  then show ?case by (simp add: visit_ClassDef.simps Let_def)
next
  case (3 e self node)
  have "checkFunctionDef e self (parent self) node = checkFunctionDef e0 s0 (parent self) node"
    using 3(2,3) checkFunctionDef_sameOptions [of self s0] by (simp add: allowed_def)
  with 3(3) chk [of "parent self" node]
  have "allowed s0 Q (self\<lparr>parent := Some node,
      violations := violations (self\<lparr>parent := Some node\<rparr>) @
        checkFunctionDef e (self\<lparr>parent := Some node\<rparr>) (parent self) node\<rparr>)"
    by (simp add: allowed_def sameOptions_def)
  with 3(2) have "allowed s0 Q (generic_visit e (self\<lparr>parent := Some node,
      violations := violations (self\<lparr>parent := Some node\<rparr>) @
        checkFunctionDef e (self\<lparr>parent := Some node\<rparr>) (parent self) node\<rparr>) node)"
    by (intro 3(1) [OF refl refl refl]) simp_all
  then show ?case by (simp add: visit_FunctionDef.simps Let_def)
next
  case (4 e self node)
  then show ?case by (simp add: visit_AsyncFunctionDef.simps)
next
  case (5 e self node)
  then show ?case by (simp add: visit_Raise.simps)
next
  case (6 e self node)
  show ?case
    unfolding generic_visit.simps [of e self node]
  proof (rule fold_invariant)
    show "allowed s0 Q self" by (rule 6(3))
  next
    fix c s assume "c \<in> set (body node)" "allowed s0 Q s"
    then show "allowed s0 Q (visit e s c)" using 6(1,2) by simp
  qed
qed

lemma emitted_allowed:
  assumes "\<And>p n. list_all Q (checkFunctionDef e s p n)"
  shows "list_all Q (emitted e s tree)"
proof -
  have "allowed s Q (s\<lparr>violations := []\<rparr>)"
    by (simp add: allowed_def sameOptions_def)
  with assms have "allowed s Q (visit e (s\<lparr>violations := []\<rparr>) tree)"
    by (intro visit_allowed(1)) simp_all
  then show ?thesis by (simp add: emitted_fresh allowed_def)
qed

subsection \<open>The walk on a given node\<close>

text \<open>
  The equations of the walk by the class of the node, for evaluating it on a given tree.
\<close>

lemma visit_node_simps:
  "visit e s (ClassDef nm l b) =
     (fold (\<lambda>child s. visit e s child) b (s\<lparr>parent := Some (ClassDef nm l b)\<rparr>))
       \<lparr>parent := parent s\<rparr>"
  "visit e s (FunctionDef nm l a b) =
     (fold (\<lambda>child s. visit e s child) b
        (s\<lparr>parent := Some (FunctionDef nm l a b),
           violations := violations s @ checkFunctionDef e s (parent s) (FunctionDef nm l a b)\<rparr>))
       \<lparr>parent := parent s\<rparr>"
  "visit e s (AsyncFunctionDef nm l a b) =
     (fold (\<lambda>child s. visit e s child) b
        (s\<lparr>parent := Some (AsyncFunctionDef nm l a b),
           violations :=
             violations s @ checkFunctionDef e s (parent s) (AsyncFunctionDef nm l a b)\<rparr>))
       \<lparr>parent := parent s\<rparr>"
  "visit e s (Raise b) = fold (\<lambda>child s. visit e s child) b s"
  "visit e s (Other b) = fold (\<lambda>child s. visit e s child) b s"
  by (subst visit.simps,
      simp add: visit_ClassDef.simps visit_FunctionDef.simps visit_AsyncFunctionDef.simps
        visit_Raise.simps generic_visit.simps Let_def)+

subsection \<open>The violations of a definition by family of codes\<close>

lemma withCodes_Nil [simp]: "withCodes S [] = []"
  by (simp add: withCodes_def)

lemma withCodes_append [simp]: "withCodes S (xs @ ys) = withCodes S xs @ withCodes S ys"
  by (simp add: withCodes_def)

lemma withCodes_checkArguments_other:
  "S \<inter> {101, 102, 103, 104, 105} = {} \<Longrightarrow>
   withCodes S (checkArguments e self n p d) = []"
  by (auto simp: withCodes_def filter_empty_conv dest: checkArguments_code_range)

lemma withCodes_checkReturns_other:
  "S \<inter> {201, 202} = {} \<Longrightarrow> withCodes S (checkReturns e n p d) = []"
  by (auto simp: withCodes_def filter_empty_conv dest: checkReturns_code_range)

lemma withCodes_checkReturns_own:
  "{201, 202} \<subseteq> S \<Longrightarrow>
   withCodes S (checkReturns e n p d) = checkReturns e n p d"
  by (auto simp: withCodes_def filter_id_conv dest: checkReturns_code_range)

lemma withCodes_checkYields_other:
  "S \<inter> {401, 402, 403} = {} \<Longrightarrow> withCodes S (checkYields e n p d) = []"
  by (auto simp: withCodes_def filter_empty_conv dest: checkYields_code_range)

lemma withCodes_checkYields_own:
  "{401, 402, 403} \<subseteq> S \<Longrightarrow>
   withCodes S (checkYields e n p d) = checkYields e n p d"
  by (auto simp: withCodes_def filter_id_conv dest: checkYields_code_range)

lemma withCodes_checkRaises_other:
  "S \<inter> {501, 502} = {} \<Longrightarrow> withCodes S (checkRaises e n p d) = []"
  by (auto simp: withCodes_def filter_empty_conv dest: checkRaises_code_range)

lemma withCodes_checkRaises_own:
  "{501, 502} \<subseteq> S \<Longrightarrow>
   withCodes S (checkRaises e n p d) = checkRaises e n p d"
  by (auto simp: withCodes_def filter_id_conv dest: checkRaises_code_range)

lemma withCodes_constructor_other:
  "302 \<notin> S \<Longrightarrow> withCodes S (checkReturnsInClassConstructor c d) = []"
  by (auto simp: withCodes_def filter_empty_conv dest: checkReturnsInClassConstructor_line)

lemma withCodes_constructor_own:
  "302 \<in> S \<Longrightarrow>
   withCodes S (checkReturnsInClassConstructor c d) =
   checkReturnsInClassConstructor c d"
  by (auto simp: withCodes_def filter_id_conv dest: checkReturnsInClassConstructor_line)

lemma withCodes_constructorDocViolation_other:
  "301 \<notin> S \<Longrightarrow> withCodes S (constructorDocViolation e p n) = []"
  by (auto simp: withCodes_def filter_empty_conv dest: constructorDocViolation_line)

lemmas withCodes_family =
  withCodes_checkArguments_other withCodes_checkReturns_other withCodes_checkReturns_own
  withCodes_checkYields_other withCodes_checkYields_own withCodes_checkRaises_other
  withCodes_checkRaises_own withCodes_constructor_other withCodes_constructor_own
  withCodes_constructorDocViolation_other

lemma checkFunctionDef_cases:
  "checkFunctionDef e self p node =
     constructorDocViolation e p node @
     (if workingDocstring e p node = [] then []
      else
        (let doc = parseDocstring e (workingDocstring e p node)
         in (if isChecked e self p node then checkArguments e self node p doc else []) @
            (if isClassConstructor p node then checkReturnsInClassConstructor (the p) doc
             else if isChecked e self p node then checkReturns e node p doc else []) @
            (if isChecked e self p node then checkYields e node p doc else []) @
            (if isChecked e self p node \<and> \<not> skipCheckingRaises self
             then checkRaises e node p doc else [])))"
proof (cases "workingDocstring e p node = []")
  case True
  then show ?thesis by (simp add: checkFunctionDef_empty)
next
  case False
  show ?thesis
  proof (cases "isChecked e self p node")
    case True
    with False show ?thesis
      using checkFunctionDef_checked [of e p node self] by (simp add: isChecked_def Let_def)
  next
    case skipped: False
    with False show ?thesis
      using checkFunctionDef_skipped [of e p node self] by (simp add: isChecked_def Let_def)
  qed
qed

lemma returns_family:
  "withCodes {201, 202, 302} (checkFunctionDef e self p node) =
     (if workingDocstring e p node = [] then []
      else if isClassConstructor p node then
        checkReturnsInClassConstructor (the p) (parseDocstring e (workingDocstring e p node))
      else if isChecked e self p node then
        checkReturns e node p (parseDocstring e (workingDocstring e p node))
      else [])"
  by (simp add: checkFunctionDef_cases [of e self p node] Let_def withCodes_family)

lemma yields_family:
  "withCodes {401, 402, 403} (checkFunctionDef e self p node) =
     (if isChecked e self p node then
        checkYields e node p (parseDocstring e (workingDocstring e p node))
      else [])"
  by (simp add: checkFunctionDef_cases [of e self p node] Let_def withCodes_family isChecked_def)

lemma raises_family:
  "withCodes {501, 502} (checkFunctionDef e self p node) =
     (if isChecked e self p node \<and> \<not> skipCheckingRaises self then
        checkRaises e node p (parseDocstring e (workingDocstring e p node))
      else [])"
  by (simp add: checkFunctionDef_cases [of e self p node] Let_def withCodes_family isChecked_def)

lemma mem_codes_withCodes:
  "c \<in> S \<Longrightarrow>
   c \<in> set (map code xs) \<longleftrightarrow> c \<in> set (map code (withCodes S xs))"
  by (auto simp: withCodes_def)

subsection \<open>Unfolding the examples and the checks\<close>

lemmas example_defs =
  exModule_def exFoo_def exInit_def exGen_def exPlain_def exShort_def exExtern_def
  exDoc_def exParam_def Visitor_init_def

lemmas check_defs =
  checkFunctionDef_def checkArguments_def validateDocArgs_def checkReturns_def
  checkReturnsInClassConstructor_def checkYields_def checkRaises_def isShortDocstring_def
  equals_def argEquals_def Let_def

subsection \<open>The argument check\<close>

text \<open>
  C1. A call of the argument check whose documented list does not equal the actual
  list under the configured options tries the relaxations in the fixed order (ignore
  the order; ignore the type hints; ignore both), and the first that succeeds decides:
  of the codes 103, 104 and 105 the call emits exactly 104, or 105, or 104 and 105, or
  103. When the lists are equal under the configured options it emits none of them.
  The other codes of the call are the count checks 101 and 102, emitted before.
\<close>

theorem validateDocArgs_escalation:
  "let docArgs = map (fromNumpydocParam e) docArgList;
       funcArgs = map (fromAstArg e) actualArgs;
       codes = map code (validateDocArgs e self docArgList actualArgs node pre);
       family = filter (\<lambda>c. c \<in> {103, 104, 105}) codes
   in (if equals docArgs funcArgs (checkTypeHint self) (checkArgOrder self) then family = []
       else family =
              (if equals docArgs funcArgs (checkTypeHint self) False then [104]
               else if equals docArgs funcArgs False (checkArgOrder self) then [105]
               else if equals docArgs funcArgs False False then [104, 105]
               else [103]) \<and>
            family \<in> {[104], [105], [104, 105], [103]}) \<and>
      filter (\<lambda>c. c \<notin> {103, 104, 105}) codes =
        (if length docArgList < length actualArgs then [101] else []) @
        (if length docArgList > length actualArgs then [102] else [])"
  by (simp add: validateDocArgs_codes Let_def)

text \<open>Parameters documented as b, a for a function of a, b: 104 and nothing else.\<close>

theorem validateDocArgs_escalation_witness:
  "filter (\<lambda>c. c \<in> {103, 104, 105})
     (map code (validateDocArgs exExtern (Visitor_init True True True False)
        [exParam ''b'' [], exParam ''a'' []]
        [\<lparr>arg = ''a'', annotation = None\<rparr>, \<lparr>arg = ''b'', annotation = None\<rparr>]
        exGen ''Function `gen`:'')) = [104] \<and>
   filter (\<lambda>c. c \<notin> {103, 104, 105})
     (map code (validateDocArgs exExtern (Visitor_init True True True False)
        [exParam ''b'' [], exParam ''a'' []]
        [\<lparr>arg = ''a'', annotation = None\<rparr>, \<lparr>arg = ''b'', annotation = None\<rparr>]
        exGen ''Function `gen`:'')) = []"
  using validateDocArgs_escalation [of exExtern "[exParam ''b'' [], exParam ''a'' []]"
      "[\<lparr>arg = ''a'', annotation = None\<rparr>, \<lparr>arg = ''b'', annotation = None\<rparr>]"
      "Visitor_init True True True False" exGen "''Function `gen`:''"]
  by (simp add: Let_def equals_def argEquals_def exExtern_def exParam_def Visitor_init_def)


lemma validateDocArgs_count_codes:
  "(101 \<in> set (map code (validateDocArgs e self docArgList actualArgs node pre)) \<longleftrightarrow>
      length docArgList < length actualArgs) \<and>
   (102 \<in> set (map code (validateDocArgs e self docArgList actualArgs node pre)) \<longleftrightarrow>
      length docArgList > length actualArgs)"
  by (simp add: validateDocArgs_codes Let_def)

text \<open>
  No call of the argument check emits 101 and 102 together: the two tests are separate
  statements, but one needs fewer documented parameters than actual ones and the other
  more.
\<close>

theorem validateDocArgs_never_101_and_102:
  "\<not> (\<exists>e self docArgList actualArgs node pre.
        101 \<in> set (map code (validateDocArgs e self docArgList actualArgs node pre)) \<and>
        102 \<in> set (map code (validateDocArgs e self docArgList actualArgs node pre)))"
  using validateDocArgs_count_codes by fastforce

text \<open>
  C2, as the code has it. The argument check emits 101 exactly when fewer parameters
  are documented than the signature has, and 102 exactly when more are; one call never
  emits both.
\<close>

theorem validateDocArgs_count_checks:
  "(101 \<in> set (map code (validateDocArgs e self docArgList actualArgs node pre)) \<longleftrightarrow>
      length docArgList < length actualArgs) \<and>
   (102 \<in> set (map code (validateDocArgs e self docArgList actualArgs node pre)) \<longleftrightarrow>
      length docArgList > length actualArgs) \<and>
   \<not> (101 \<in> set (map code (validateDocArgs e self docArgList actualArgs node pre)) \<and>
      102 \<in> set (map code (validateDocArgs e self docArgList actualArgs node pre)))"
  using validateDocArgs_count_codes [of e self docArgList actualArgs node pre] by auto

text \<open>One parameter documented of two: 101 without 102.\<close>

theorem validateDocArgs_count_checks_witness:
  "101 \<in> set (map code (validateDocArgs exExtern (Visitor_init True True True False)
        [exParam ''a'' []]
        [\<lparr>arg = ''a'', annotation = None\<rparr>, \<lparr>arg = ''b'', annotation = None\<rparr>]
        exGen ''Function `gen`:'')) \<and>
   102 \<notin> set (map code (validateDocArgs exExtern (Visitor_init True True True False)
        [exParam ''a'' []]
        [\<lparr>arg = ''a'', annotation = None\<rparr>, \<lparr>arg = ''b'', annotation = None\<rparr>]
        exGen ''Function `gen`:''))"
  using validateDocArgs_count_checks [of exExtern "Visitor_init True True True False"
      "[exParam ''a'' []]"
      "[\<lparr>arg = ''a'', annotation = None\<rparr>, \<lparr>arg = ''b'', annotation = None\<rparr>]"
      exGen "''Function `gen`:''"]
  by simp

subsection \<open>The return check of a class constructor\<close>

text \<open>
  C3. For a class constructor whose working documentation, the class's, is not empty,
  the constructor's return check stands in place of the ordinary one: of the codes
  201, 202 and 302 the definition gets exactly the result of the constructor's check
  on the class's documentation, whatever its body holds. So 302 is emitted exactly
  when that documentation has a Returns section, and 201 and 202 never are.
\<close>

theorem constructor_return_check:
  assumes "isClassConstructor parent' node"
    and "workingDocstring e parent' node \<noteq> []"
  shows "withCodes {201, 202, 302} (checkFunctionDef e self parent' node) =
           checkReturnsInClassConstructor (the parent')
             (parseDocstring e (getDocstring e (the parent'))) \<and>
         (302 \<in> set (map code (checkFunctionDef e self parent' node)) \<longleftrightarrow>
            Returns (parseDocstring e (getDocstring e (the parent'))) \<noteq> []) \<and>
         201 \<notin> set (map code (checkFunctionDef e self parent' node)) \<and>
         202 \<notin> set (map code (checkFunctionDef e self parent' node))"
proof -
  let ?doc = "parseDocstring e (getDocstring e (the parent'))"
  have doc: "workingDocstring e parent' node = getDocstring e (the parent')"
    using assms(1) by (simp add: workingDocstring_def)
  have family: "withCodes {201, 202, 302} (checkFunctionDef e self parent' node) =
      checkReturnsInClassConstructor (the parent') ?doc"
    using assms returns_family [of e self parent' node] by (simp add: doc)
  have "c \<in> set (map code (checkFunctionDef e self parent' node)) \<longleftrightarrow>
      c \<in> set (map code (checkReturnsInClassConstructor (the parent') ?doc))"
    if "c \<in> {201, 202, 302}" for c
    using mem_codes_withCodes [OF that, of "checkFunctionDef e self parent' node"]
    by (simp only: family)
  from this [of 201] this [of 202] this [of 302] family show ?thesis
    by (simp add: checkReturnsInClassConstructor_codes)
qed

text \<open>The constructor of the example: 302 on the line of its class.\<close>

theorem constructor_return_check_witness:
  "withCodes {201, 202, 302}
     (checkFunctionDef exExtern (Visitor_init True True True False) (Some exFoo) exInit) =
     [\<lparr>code = 302, line = 1, msgPrefix = ''Class `Foo`:'', msgPostfix = []\<rparr>] \<and>
   302 \<in> set (map code
     (checkFunctionDef exExtern (Visitor_init True True True False) (Some exFoo) exInit)) \<and>
   201 \<notin> set (map code
     (checkFunctionDef exExtern (Visitor_init True True True False) (Some exFoo) exInit))"
proof -
  have ctor: "isClassConstructor (Some exFoo) exInit"
    by (simp add: isClassConstructor_def exFoo_def exInit_def)
  have doc: "workingDocstring exExtern (Some exFoo) exInit \<noteq> []"
    by (simp add: workingDocstring_def isClassConstructor_def exFoo_def exInit_def exExtern_def)
  from constructor_return_check [OF ctor doc, of "Visitor_init True True True False"]
  show ?thesis
    by (simp add: checkReturnsInClassConstructor_def exFoo_def exExtern_def exDoc_def
        exParam_def)
qed

subsection \<open>The line of a violation\<close>

text \<open>
  The line of a violation 302 is not the line of the definition under review: the
  constructor of the example stands on line 3, and its violation 302 carries line 1,
  the line of the class.
\<close>

theorem violation_302_line_of_class:
  "\<lparr>code = 302, line = 1, msgPrefix = ''Class `Foo`:'', msgPostfix = []\<rparr>
     \<in> set (checkFunctionDef exExtern (Visitor_init True True True False) (Some exFoo) exInit) \<and>
   lineno exInit = 3"
  by (simp add: example_defs check_defs)

text \<open>
  C4, as the code has it. Every violation emitted for a definition carries the line
  of that definition, but for 302, which is emitted for a class constructor only and
  carries the line of the enclosing class.
\<close>

theorem violation_line:
  assumes "v \<in> set (checkFunctionDef e self parent' node)"
  shows "(if code v = 302 then isClassConstructor parent' node \<and> line v = lineno (the parent')
          else line v = lineno node)"
proof -
  from assms have "v \<in> set (constructorDocViolation e parent' node) \<or>
      workingDocstring e parent' node \<noteq> [] \<and>
      (v \<in> set (checkArguments e self node parent'
            (parseDocstring e (workingDocstring e parent' node))) \<or>
       isClassConstructor parent' node \<and>
         v \<in> set (checkReturnsInClassConstructor (the parent')
            (parseDocstring e (workingDocstring e parent' node))) \<or>
       v \<in> set (checkReturns e node parent'
            (parseDocstring e (workingDocstring e parent' node))) \<or>
       v \<in> set (checkYields e node parent'
            (parseDocstring e (workingDocstring e parent' node))) \<or>
       v \<in> set (checkRaises e node parent'
            (parseDocstring e (workingDocstring e parent' node))))"
    by (auto simp: checkFunctionDef_cases [of e self parent' node] Let_def split: if_splits)
  then show ?thesis
    by (auto dest: constructorDocViolation_line checkArguments_line checkArguments_code_range
        checkReturnsInClassConstructor_line checkReturns_line checkReturns_code_range
        checkYields_line checkYields_code_range checkRaises_line checkRaises_code_range)
qed

text \<open>The violation 301 of the constructor of the example carries the constructor's line.\<close>

theorem violation_line_witness:
  "\<lparr>code = 301, line = 3, msgPrefix = ''Class `Foo`:'', msgPostfix = []\<rparr>
     \<in> set (checkFunctionDef exExtern (Visitor_init True True True False) (Some exFoo) exInit) \<and>
   line \<lparr>code = 301, line = 3, msgPrefix = ''Class `Foo`:'', msgPostfix = []\<rparr> = lineno exInit"
proof -
  have mem: "\<lparr>code = 301, line = 3, msgPrefix = ''Class `Foo`:'', msgPostfix = []\<rparr>
     \<in> set (checkFunctionDef exExtern (Visitor_init True True True False) (Some exFoo) exInit)"
    by (simp add: example_defs check_defs)
  from violation_line [OF mem] mem show ?thesis by simp
qed

subsection \<open>The ordinary return check\<close>

text \<open>
  C5. The return check emits 201 exactly when no Returns section is documented and the
  body has a return statement with a value or the definition has a return annotation
  that is not a generator's; it emits 202 exactly when a Returns section is documented
  and the definition has neither such a return statement nor a return annotation. For
  a checked definition that is not a class constructor these are the 201 and 202 of
  the definition, the documentation being its own docstring.
\<close>

theorem return_check_rules:
  "(201 \<in> set (map code (checkReturns e node parent' doc)) \<longleftrightarrow>
      Returns doc = [] \<and>
      (hasReturnStatements e node \<or>
       (hasReturnAnnotation e node \<and> \<not> hasGeneratorAsReturnAnnotation e node))) \<and>
   (202 \<in> set (map code (checkReturns e node parent' doc)) \<longleftrightarrow>
      Returns doc \<noteq> [] \<and> \<not> hasReturnStatements e node \<and> \<not> hasReturnAnnotation e node) \<and>
   (if isChecked e self parent' node \<and> \<not> isClassConstructor parent' node then
      withCodes {201, 202, 302} (checkFunctionDef e self parent' node) =
        checkReturns e node parent' (parseDocstring e (getDocstring e node))
    else True)"
proof -
  have "withCodes {201, 202, 302} (checkFunctionDef e self parent' node) =
      checkReturns e node parent' (parseDocstring e (getDocstring e node))"
    if "isChecked e self parent' node" and "\<not> isClassConstructor parent' node"
    using that returns_family [of e self parent' node]
    by (simp add: isChecked_def workingDocstring_def)
  then show ?thesis
    by (auto simp: checkReturns_codes)
qed

text \<open>The generator of the example needs no Returns section; the function
  \<^verbatim>\<open>plain\<close>, documented without one, would get 201.\<close>

theorem return_check_rules_witness:
  "201 \<notin> set (map code (checkReturns exExtern exGen None (exDoc [''Count.''] [] [] [] []))) \<and>
   201 \<in> set (map code (checkReturns exExtern exPlain None (exDoc [''Plain.''] [] [] [] []))) \<and>
   202 \<notin> set (map code (checkReturns exExtern exPlain None (exDoc [''Plain.''] [] [] [] []))) \<and>
   withCodes {201, 202, 302}
     (checkFunctionDef exExtern (Visitor_init True True True False) None exGen) = []"
proof -
  have checked: "isChecked exExtern (Visitor_init True True True False) None exGen \<and>
      \<not> isClassConstructor None exGen"
    by (simp add: isChecked_def workingDocstring_def isClassConstructor_def isShortDocstring_def
        example_defs)
  have none: "checkReturns exExtern exGen None (parseDocstring exExtern (getDocstring exExtern exGen))
      = []"
    by (simp add: checkReturns_def example_defs)
  from return_check_rules [of exExtern exGen None "exDoc [''Count.''] [] [] [] []"
      "Visitor_init True True True False"]
    return_check_rules [of exExtern exPlain None "exDoc [''Plain.''] [] [] [] []"
      "Visitor_init True True True False"]
    checked none
  show ?thesis
    by (simp add: exExtern_def exGen_def exPlain_def exDoc_def)
qed

subsection \<open>The yield check\<close>

text \<open>
  C6. The yield check emits 401 exactly when no Yields section is documented and the
  return annotation is a generator's, 402 exactly when no Yields section is documented
  and the body has a yield, and 403 exactly when a Yields section is documented and
  the definition has neither a yield nor a generator's return annotation. For a
  checked definition these are its 401, 402 and 403. The first two are independent:
  some definition gets both.
\<close>

theorem yield_check_rules:
  "(401 \<in> set (map code (checkYields e node parent' doc)) \<longleftrightarrow>
      Yields doc = [] \<and> hasGeneratorAsReturnAnnotation e node) \<and>
   (402 \<in> set (map code (checkYields e node parent' doc)) \<longleftrightarrow>
      Yields doc = [] \<and> hasYieldStatements e node) \<and>
   (403 \<in> set (map code (checkYields e node parent' doc)) \<longleftrightarrow>
      Yields doc \<noteq> [] \<and> \<not> hasYieldStatements e node \<and>
      \<not> hasGeneratorAsReturnAnnotation e node) \<and>
   (if isChecked e self parent' node then
      withCodes {401, 402, 403} (checkFunctionDef e self parent' node) =
        checkYields e node parent' (parseDocstring e (workingDocstring e parent' node))
    else withCodes {401, 402, 403} (checkFunctionDef e self parent' node) = []) \<and>
   (\<exists>e' node' doc'. map code (checkYields e' node' None doc') = [401, 402])"
proof -
  have "\<exists>e' node' doc'. map code (checkYields e' node' None doc') = [401, 402]"
    by (rule exI [of _ exExtern], rule exI [of _ exGen], rule exI [of _ "exDoc [] [] [] [] []"])
      (simp add: checkYields_codes exExtern_def exGen_def exDoc_def)
  then show ?thesis
    by (simp add: checkYields_codes yields_family)
qed

text \<open>The generator of the example, documented without a Yields section: 401 and 402.\<close>

theorem yield_check_rules_witness:
  "map code (withCodes {401, 402, 403}
     (checkFunctionDef exExtern (Visitor_init True True True False) None exGen)) = [401, 402] \<and>
   403 \<notin> set (map code (checkYields exExtern exGen None
     (parseDocstring exExtern (workingDocstring exExtern None exGen))))"
proof -
  have checked: "isChecked exExtern (Visitor_init True True True False) None exGen"
    by (simp add: isChecked_def workingDocstring_def isClassConstructor_def isShortDocstring_def
        example_defs)
  from yield_check_rules [of exExtern exGen None
      "parseDocstring exExtern (workingDocstring exExtern None exGen)"
      "Visitor_init True True True False"] checked
  show ?thesis
    by (simp add: checkYields_codes workingDocstring_def isClassConstructor_def example_defs)
qed

subsection \<open>The raise check\<close>

text \<open>
  C7. The raise check emits 501 exactly when the body has a raise statement and no
  Raises section is documented, and 502 exactly when a Raises section is documented
  and the body has no raise statement. With raise checking enabled these are the 501
  and 502 of a checked definition. With \<^verbatim>\<open>skipCheckingRaises\<close> set, no definition
  gets 501 or 502, and a run over a whole tree emits neither.
\<close>

theorem raise_check_rules:
  "(501 \<in> set (map code (checkRaises e node parent' doc)) \<longleftrightarrow>
      hasRaiseStatements e node \<and> Raises doc = []) \<and>
   (502 \<in> set (map code (checkRaises e node parent' doc)) \<longleftrightarrow>
      Raises doc \<noteq> [] \<and> \<not> hasRaiseStatements e node) \<and>
   (if skipCheckingRaises self then
      withCodes {501, 502} (checkFunctionDef e self parent' node) = [] \<and>
      withCodes {501, 502} (emitted e self tree) = []
    else if isChecked e self parent' node then
      withCodes {501, 502} (checkFunctionDef e self parent' node) =
        checkRaises e node parent' (parseDocstring e (workingDocstring e parent' node))
    else withCodes {501, 502} (checkFunctionDef e self parent' node) = [])"
proof -
  have "withCodes {501, 502} (emitted e self tree) = []" if skip: "skipCheckingRaises self"
  proof -
    have "list_all (\<lambda>v. code v \<notin> {501, 502}) (checkFunctionDef e self p n)" for p n
      using raises_family [of e self p n] skip
      by (simp add: withCodes_def filter_empty_conv list_all_iff)
    then have "list_all (\<lambda>v. code v \<notin> {501, 502}) (emitted e self tree)"
      by (rule emitted_allowed)
    then show ?thesis
      by (simp add: withCodes_def filter_empty_conv list_all_iff)
  qed
  then show ?thesis
    by (auto simp: checkRaises_codes raises_family)
qed

text \<open>
  The constructor of the example raises and its class documents no Raises section:
  501 when raises are checked, and no 501 in the whole module when they are not.
\<close>

theorem raise_check_rules_witness:
  "map code (withCodes {501, 502}
     (checkFunctionDef exExtern (Visitor_init True True True False) (Some exFoo) exInit)) = [501] \<and>
   withCodes {501, 502} (emitted exExtern (Visitor_init True True True True) exModule) = [] \<and>
   map code (emitted exExtern (Visitor_init True True True True) exModule) =
     [301, 302, 401, 402]"
proof -
  have checked: "isChecked exExtern (Visitor_init True True True False) (Some exFoo) exInit"
    by (simp add: isChecked_def workingDocstring_def isClassConstructor_def isShortDocstring_def
        example_defs)
  have run: "map code (emitted exExtern (Visitor_init True True True True) exModule) =
      [301, 302, 401, 402]"
    by (simp add: emitted_def visit_node_simps example_defs check_defs)
  from raise_check_rules [of exExtern exInit "Some exFoo"
      "parseDocstring exExtern (workingDocstring exExtern (Some exFoo) exInit)"
      "Visitor_init True True True False" exModule]
    raise_check_rules [of exExtern exInit "Some exFoo"
      "parseDocstring exExtern (workingDocstring exExtern (Some exFoo) exInit)"
      "Visitor_init True True True True" exModule]
    checked run
  show ?thesis
    by (simp add: checkRaises_codes workingDocstring_def isClassConstructor_def example_defs)
qed

subsection \<open>Definitions that are not checked\<close>

text \<open>
  C8. A definition whose working documentation, after the constructor's docstring has
  given way to the class's, is the empty string gets no violation from the four
  checks. All it can get is the 301 emitted before, when it is a constructor with a
  docstring of its own.
\<close>

theorem empty_docstring_not_checked:
  assumes "workingDocstring e parent' node = []"
  shows "checkFunctionDef e self parent' node =
           (if isClassConstructor parent' node \<and> getDocstring e node \<noteq> [] then
              [\<lparr>code = 301, line = lineno node,
                msgPrefix = ''Class `'' @ name (the parent') @ ''`:'', msgPostfix = []\<rparr>]
            else [])"
  using assms by (simp add: checkFunctionDef_empty constructorDocViolation_def)

text \<open>
  The undocumented function of the example gets nothing; the documented constructor
  of an undocumented class gets 301 alone.
\<close>

theorem empty_docstring_not_checked_witness:
  "checkFunctionDef exExtern (Visitor_init True True True False) None exPlain = [] \<and>
   checkFunctionDef exExtern (Visitor_init True True True False)
     (Some (ClassDef ''Bar'' 20 [exInit])) exInit =
     [\<lparr>code = 301, line = 3, msgPrefix = ''Class `Bar`:'', msgPostfix = []\<rparr>]"
proof -
  have plain: "workingDocstring exExtern None exPlain = []"
    by (simp add: workingDocstring_def isClassConstructor_def example_defs)
  have bar: "workingDocstring exExtern (Some (ClassDef ''Bar'' 20 [exInit])) exInit = []"
    by (simp add: workingDocstring_def isClassConstructor_def example_defs)
  from empty_docstring_not_checked [OF plain, of "Visitor_init True True True False"]
    empty_docstring_not_checked [OF bar, of "Visitor_init True True True False"]
  show ?thesis
    by (simp add: isClassConstructor_def example_defs)
qed

text \<open>
  C9. A definition whose documentation is not empty and short gets no violation from
  the four checks when \<^verbatim>\<open>skipCheckingShortDocstrings\<close> is set: all it can get is
  the 301 of a constructor. Without the option the four checks run on it (the
  constructor's return check in place of the ordinary one for a constructor, the raise
  check unless raises are skipped). An empty documentation is skipped whatever the
  option says.
\<close>

theorem short_docstring_skipped:
  "(if workingDocstring e parent' node = [] then
      checkFunctionDef e self parent' node = constructorDocViolation e parent' node
    else if skipCheckingShortDocstrings self then
      (if isShortDocstring (parseDocstring e (workingDocstring e parent' node)) then
         checkFunctionDef e self parent' node = constructorDocViolation e parent' node
       else True)
    else
      checkFunctionDef e self parent' node =
        constructorDocViolation e parent' node @
        checkArguments e self node parent'
          (parseDocstring e (workingDocstring e parent' node)) @
        (if isClassConstructor parent' node then
           checkReturnsInClassConstructor (the parent')
             (parseDocstring e (workingDocstring e parent' node))
         else checkReturns e node parent'
             (parseDocstring e (workingDocstring e parent' node))) @
        checkYields e node parent' (parseDocstring e (workingDocstring e parent' node)) @
        (if skipCheckingRaises self then []
         else checkRaises e node parent'
             (parseDocstring e (workingDocstring e parent' node))))"
proof -
  have "checkReturnsInClassConstructor c d = []" if "isShortDocstring d" for c d
    using that by (simp add: checkReturnsInClassConstructor_def short_no_Returns)
  then show ?thesis
    by (simp add: checkFunctionDef_cases [of e self parent' node] isChecked_def Let_def)
qed

text \<open>
  The function of the example with a one-line docstring: nothing with the option,
  and without it the violations of its undocumented parameter and return value.
\<close>

theorem short_docstring_skipped_witness:
  "checkFunctionDef exExtern (Visitor_init True True True False) None exShort = [] \<and>
   map code (checkFunctionDef exExtern (Visitor_init True True False False) None exShort) =
     [101, 103, 201]"
proof -
  have doc: "workingDocstring exExtern None exShort = ''short docs''"
    by (simp add: workingDocstring_def isClassConstructor_def example_defs)
  have short: "isShortDocstring (parseDocstring exExtern ''short docs'')"
    by (simp add: isShortDocstring_def example_defs)
  have none: "constructorDocViolation exExtern None exShort = []"
    by (simp add: constructorDocViolation_def isClassConstructor_def)
  from short_docstring_skipped [of exExtern None exShort "Visitor_init True True True False"]
    short_docstring_skipped [of exExtern None exShort "Visitor_init True True False False"]
    doc short none
  show ?thesis
    by (simp add: isClassConstructor_def example_defs check_defs subtract_def)
qed

subsection \<open>Running the visitor twice\<close>

text \<open>
  C10. Two runs of the visitor over the same tree yield the same sequence of
  violations. A run appends its violations to those the visitor already holds and
  leaves the options and the parent as they were; what it appends depends on the
  options, the parent and the tree alone. So a second run, of the same visitor or of
  another one with the same options, emits the very sequence of the first, and a fresh
  visitor ends with exactly that sequence.
\<close>

theorem visit_twice_same_violations:
  "violations (visit e self tree) = violations self @ emitted e self tree \<and>
   emitted e (visit e self tree) tree = emitted e self tree \<and>
   (if sameOptions self other \<and> parent self = parent other
    then emitted e self tree = emitted e other tree else True) \<and>
   violations (visit e (Visitor_init cth cao sksd skr) tree) =
     emitted e (Visitor_init cth cao sksd skr) tree"
proof -
  have "violations (visit e (Visitor_init cth cao sksd skr) tree) =
      emitted e (Visitor_init cth cao sksd skr) tree"
    by (simp add: emitted_def Visitor_init_def)
  then show ?thesis
    using emitted_depends [of self other e tree]
    by (simp add: violations_visit_emitted emitted_again)
qed

text \<open>
  The example module, visited twice by one visitor: each run emits 301, 302 and 501
  for the constructor and 401 and 402 for the generator.
\<close>

theorem visit_twice_same_violations_witness:
  "map code (emitted exExtern (Visitor_init True True True False) exModule) =
     [301, 302, 501, 401, 402] \<and>
   emitted exExtern (visit exExtern (Visitor_init True True True False) exModule) exModule =
     emitted exExtern (Visitor_init True True True False) exModule \<and>
   violations (visit exExtern (visit exExtern (Visitor_init True True True False) exModule)
       exModule) =
     emitted exExtern (Visitor_init True True True False) exModule @
     emitted exExtern (Visitor_init True True True False) exModule"
proof -
  let ?v = "Visitor_init True True True False"
  have run: "map code (emitted exExtern ?v exModule) = [301, 302, 501, 401, 402]"
    by (simp add: emitted_def visit_node_simps example_defs check_defs)
  from visit_twice_same_violations [of exExtern ?v exModule ?v True True True False]
    visit_twice_same_violations [of exExtern "visit exExtern ?v exModule" exModule ?v
      True True True False]
    run
  show ?thesis by simp
qed

end
